theory Spec2Isabelle
  imports Complex_Main
begin

section \<open>Python values used by \<open>analyze_courses.py\<close>\<close>

text \<open>
  The script \<open>src/analyze_courses.py\<close> reads a CSV file with \<open>csv.DictReader\<close>, groups
  the rows by their \<open>company\<close> field, counts the rows and adds up \<open>float(row['duration'])\<close>
  per company, sorts the companies by count (descending) and prints a report.

  Strings are \<open>char list\<close>; one \<open>char\<close> stands for one code point of the Python \<open>str\<close>
  (code points up to 255 can be written). A field of a \<open>DictReader\<close> row is a string, or
  \<open>None\<close> when the record is shorter than the header.
\<close>

datatype pyval = PyStr string | PyNone

datatype pyerror = OSError | KeyError string | TypeError | ValueError string

subsection \<open>Floats: IEEE 754 binary64, round to nearest, ties to even\<close>

text \<open>
  A Python \<open>float\<close> is a binary64 number. \<open>Finite s m e\<close> is \<open>(-1)^s * m * 2^e\<close>; the values
  the functions below build are in the normal form of the format: \<open>m = 0\<close> with \<open>e = 0\<close>
  (a zero, signed), or \<open>0 < m < 2^52\<close> with \<open>e = -1074\<close> (subnormal), or
  \<open>2^52 \<le> m < 2^53\<close> with \<open>-1074 \<le> e \<le> 971\<close>.
\<close>

datatype pyfloat = Finite bool int int | Infinity bool | NaN

text \<open>\<open>int.bit_length\<close>: the number of binary digits of a positive integer.\<close>

function bit_length :: "int \<Rightarrow> nat" where
  "bit_length n = (if n \<le> 0 then 0 else Suc (bit_length (n div 2)))"
  by pat_completeness auto
termination
  by (relation "measure nat") auto

declare bit_length.simps [simp del]

text \<open>\<open>scale2 num den e\<close> is the fraction \<open>num / den * 2^e\<close>, as numerator and denominator.\<close>

definition scale2 :: "int \<Rightarrow> int \<Rightarrow> int \<Rightarrow> int \<times> int" where
  "scale2 num den e = (if 0 \<le> e then (num * 2 ^ nat e, den) else (num, den * 2 ^ nat (- e)))"

text \<open>The integer nearest to \<open>a / b\<close> (for \<open>0 \<le> a\<close>, \<open>0 < b\<close>), a tie going to the even one.\<close>

definition round_half_even :: "int \<Rightarrow> int \<Rightarrow> int" where
  "round_half_even a b =
     (let q = a div b; r = a mod b
      in if b < 2 * r \<or> (2 * r = b \<and> odd q) then q + 1 else q)"

text \<open>
  The binary64 number nearest to \<open>num / den\<close> (\<open>0 \<le> num\<close>, \<open>0 < den\<close>) with sign \<open>neg\<close>:
  the exponent \<open>e\<close> is chosen so that the quotient scaled by \<open>2^-e\<close> has 53 bits, but not
  below \<open>-1074\<close>; the scaled quotient is rounded to an integer; a result of \<open>2^1024\<close> or more
  is an infinity.
\<close>

definition round_ratio :: "bool \<Rightarrow> int \<Rightarrow> int \<Rightarrow> pyfloat" where
  "round_ratio neg num den =
     (if num = 0 then Finite neg 0 0
      else
        let e0 = int (bit_length num) - int (bit_length den) - 53;
            e1 = (if 2 ^ 53 \<le> fst (scale2 num den (- e0)) div snd (scale2 num den (- e0))
                  then e0 + 1 else e0);
            e = max e1 (- 1074);
            m = round_half_even (fst (scale2 num den (- e))) (snd (scale2 num den (- e)))
        in if m = 0 then Finite neg 0 0
           else if m = 2 ^ 53 then (if 971 < e + 1 then Infinity neg else Finite neg (2 ^ 52) (e + 1))
           else if 971 < e then Infinity neg
           else Finite neg m e)"

text \<open>The literal \<open>0.0\<close>.\<close>

definition fzero :: pyfloat where
  "fzero = Finite False 0 0"

text \<open>
  Float addition (\<open>+\<close>, \<open>+=\<close>): the exact sum, rounded. A NaN operand gives NaN, infinities
  of opposite sign give NaN, a zero operand leaves the other operand as it is, two zeros
  give \<open>-0.0\<close> only when both are negative, and an exact sum of zero is \<open>+0.0\<close>.
\<close>

fun fadd :: "pyfloat \<Rightarrow> pyfloat \<Rightarrow> pyfloat" where
  "fadd NaN y = NaN"
| "fadd x NaN = NaN"
| "fadd (Infinity s) (Infinity t) = (if s = t then Infinity s else NaN)"
| "fadd (Infinity s) (Finite t m e) = Infinity s"
| "fadd (Finite s m e) (Infinity t) = Infinity t"
| "fadd (Finite s1 m1 e1) (Finite s2 m2 e2) =
     (if m1 = 0 \<and> m2 = 0 then Finite (s1 \<and> s2) 0 0
      else if m1 = 0 then Finite s2 m2 e2
      else if m2 = 0 then Finite s1 m1 e1
      else
        let e = min e1 e2;
            x = (if s1 then - 1 else 1) * m1 * 2 ^ nat (e1 - e);
            y = (if s2 then - 1 else 1) * m2 * 2 ^ nat (e2 - e);
            z = x + y
        in if z = 0 then Finite False 0 0
           else round_ratio (z < 0) (fst (scale2 \<bar>z\<bar> 1 e)) (snd (scale2 \<bar>z\<bar> 1 e)))"

text \<open>The exact value of a finite float, as a rational number.\<close>

definition float_val :: "pyfloat \<Rightarrow> rat" where
  "float_val x =
     (case x of
        Finite s m e \<Rightarrow>
          (if s then - 1 else 1) * of_int (fst (scale2 m 1 e)) / of_int (snd (scale2 m 1 e))
      | _ \<Rightarrow> 0)"

definition is_finite :: "pyfloat \<Rightarrow> bool" where
  "is_finite x = (case x of Finite s m e \<Rightarrow> True | _ \<Rightarrow> False)"

subsection \<open>\<open>str(int)\<close> and the format specifications \<open>20s\<close>, \<open>4d\<close>, \<open>8.1f\<close>, \<open>.1f\<close>\<close>

definition digit_char :: "int \<Rightarrow> char" where
  "digit_char d = ''0123456789'' ! nat d"

function digits :: "int \<Rightarrow> string" where
  "digits n = (if n < 10 then [digit_char n] else digits (n div 10) @ [digit_char (n mod 10)])"
  by pat_completeness auto
termination
  by (relation "measure nat") auto

declare digits.simps [simp del]

definition str_int :: "int \<Rightarrow> string" where
  "str_int n = (if n < 0 then ''-'' @ digits (- n) else digits n)"

text \<open>
  Presentation type \<open>f\<close> with precision \<open>prec\<close>: the exact value times \<open>10^prec\<close> is rounded
  to an integer (ties to even) and written with \<open>prec\<close> digits after the point; the sign of
  a negative number (also of \<open>-0.0\<close>) is kept; infinities and NaN are \<open>inf\<close>, \<open>-inf\<close>, \<open>nan\<close>.
\<close>

definition format_f :: "nat \<Rightarrow> pyfloat \<Rightarrow> string" where
  "format_f prec x =
     (case x of
        NaN \<Rightarrow> ''nan''
      | Infinity s \<Rightarrow> (if s then ''-inf'' else ''inf'')
      | Finite s m e \<Rightarrow>
          (let t = round_half_even (fst (scale2 (m * 10 ^ prec) 1 e)) (snd (scale2 (m * 10 ^ prec) 1 e));
               frac = digits (t mod 10 ^ prec)
           in (if s then ''-'' else '''') @ digits (t div 10 ^ prec) @
              (if prec = 0 then ''''
               else ''.'' @ replicate (prec - length frac) (CHR ''0'') @ frac)))"

text \<open>
  A width in a format specification is a minimum: a shorter text is filled with spaces
  (\<open>width - length s\<close> on \<open>nat\<close> is 0 for a longer one), a longer text is left as it is.
  Strings are aligned to the left, numbers to the right. \<open>format(None, '20s')\<close> raises
  \<open>TypeError\<close>.
\<close>

definition ljust :: "nat \<Rightarrow> string \<Rightarrow> string" where
  "ljust width s = s @ replicate (width - length s) (CHR '' '')"

definition rjust :: "nat \<Rightarrow> string \<Rightarrow> string" where
  "rjust width s = replicate (width - length s) (CHR '' '') @ s"

definition format_s :: "nat \<Rightarrow> pyval \<Rightarrow> pyerror + string" where
  "format_s width v = (case v of PyNone \<Rightarrow> Inl TypeError | PyStr s \<Rightarrow> Inr (ljust width s))"

definition format_d :: "nat \<Rightarrow> int \<Rightarrow> string" where
  "format_d width n = rjust width (str_int n)"

definition format_wf :: "nat \<Rightarrow> nat \<Rightarrow> pyfloat \<Rightarrow> string" where
  "format_wf width prec x = rjust width (format_f prec x)"

subsection \<open>\<open>float(str)\<close>\<close>

text \<open>
  \<open>float\<close> on a string: underscores are allowed between digits only and are removed;
  white space around the text is dropped; then an optional sign and either \<open>inf\<close>,
  \<open>infinity\<close> or \<open>nan\<close> in any case, or a decimal numeral with at least one digit
  before or after the point and an optional exponent. The numeral's exact value is
  rounded to the nearest float. Anything else is a \<open>ValueError\<close> (\<open>None\<close> here).
\<close>

definition is_space :: "char \<Rightarrow> bool" where
  "is_space c = (of_char c \<in> {9, 10, 11, 12, 13, 32, 133, 160 :: nat})"

definition is_digit :: "char \<Rightarrow> bool" where
  "is_digit c = (c \<in> set ''0123456789'')"

definition digit_val :: "char \<Rightarrow> int" where
  "digit_val c = int (of_char c) - 48"

definition int_of_digits :: "string \<Rightarrow> int" where
  "int_of_digits ds = foldl (\<lambda>acc c. 10 * acc + digit_val c) 0 ds"

fun strip_underscores :: "char \<Rightarrow> string \<Rightarrow> string option" where
  "strip_underscores prev [] = (if prev = CHR ''_'' then None else Some [])"
| "strip_underscores prev (c # cs) =
     (if c = CHR ''_'' then (if is_digit prev then strip_underscores c cs else None)
      else if prev = CHR ''_'' \<and> \<not> is_digit c then None
      else map_option ((#) c) (strip_underscores c cs))"

definition strip :: "string \<Rightarrow> string" where
  "strip s = rev (dropWhile is_space (rev (dropWhile is_space s)))"

definition lower :: "char \<Rightarrow> char" where
  "lower c = (if of_char c \<in> {65 ..< 91 :: nat} then char_of (of_char c + 32 :: nat) else c)"

definition split_sign :: "string \<Rightarrow> bool \<times> string" where
  "split_sign s =
     (case s of
        [] \<Rightarrow> (False, s)
      | c # cs \<Rightarrow>
          (if c = CHR ''-'' then (True, cs) else if c = CHR ''+'' then (False, cs) else (False, s)))"

definition parse_exponent :: "string \<Rightarrow> int option" where
  "parse_exponent s =
     (case s of
        [] \<Rightarrow> Some 0
      | c # cs \<Rightarrow>
          (if c = CHR ''e'' \<or> c = CHR ''E'' then
             (let (eneg, ds) = split_sign cs
              in if ds \<noteq> [] \<and> list_all is_digit ds
                 then Some ((if eneg then - 1 else 1) * int_of_digits ds) else None)
           else None))"

definition parse_decimal :: "bool \<Rightarrow> string \<Rightarrow> pyfloat option" where
  "parse_decimal neg s =
     (let ip = takeWhile is_digit s; r1 = dropWhile is_digit s;
          has_point = (r1 \<noteq> [] \<and> hd r1 = CHR ''.'');
          fp = (if has_point then takeWhile is_digit (tl r1) else []);
          r2 = (if has_point then dropWhile is_digit (tl r1) else r1)
      in if ip = [] \<and> fp = [] then None
         else case parse_exponent r2 of
                None \<Rightarrow> None
              | Some x \<Rightarrow>
                  (let d = int_of_digits (ip @ fp); x10 = x - int (length fp)
                   in Some (if 0 \<le> x10 then round_ratio neg (d * 10 ^ nat x10) 1
                            else round_ratio neg d (10 ^ nat (- x10)))))"

definition py_float :: "string \<Rightarrow> pyfloat option" where
  "py_float s =
     (case strip_underscores (CHR 0x00) s of
        None \<Rightarrow> None
      | Some t \<Rightarrow>
          (let (neg, body) = split_sign (strip t); name = map lower body
           in if name = ''inf'' \<or> name = ''infinity'' then Some (Infinity neg)
              else if name = ''nan'' then Some NaN
              else parse_decimal neg body))"

section \<open>The program\<close>

subsection \<open>\<open>csv.DictReader\<close>\<close>

text \<open>
  The input file is given as the records that \<open>csv.reader\<close> yields: one list of fields
  per line, an empty list for a blank line. \<open>DictReader\<close> takes the first record as the
  field names, skips blank records, and turns every other record into a dictionary:
  \<open>dict(zip(fieldnames, row))\<close>, then \<open>d[key] = None\<close> for the field names beyond the
  record's length. (The fields of a record longer than the header go under the key
  \<open>None\<close>, which the script never reads; it is left out.)
\<close>

type_synonym row = "string \<rightharpoonup> pyval"

definition row_dict :: "string list \<Rightarrow> string list \<Rightarrow> row" where
  "row_dict fieldnames r =
     (let d = foldl (\<lambda>d (k, v). d(k \<mapsto> PyStr v)) Map.empty (zip fieldnames r)
      in foldl (\<lambda>d k. d(k \<mapsto> PyNone)) d (drop (length r) fieldnames))"

fun DictReader :: "string list list \<Rightarrow> row list" where
  "DictReader [] = []"
| "DictReader (fieldnames # records) = map (row_dict fieldnames) (filter (\<lambda>r. r \<noteq> []) records)"

subsection \<open>The aggregation pass (lines 18 to 26)\<close>

text \<open>
  \<open>company_data\<close> is a \<open>defaultdict\<close> whose values are the dictionaries
  \<open>{'courses': 0, 'hours': 0.0}\<close>; a Python dictionary keeps its keys in the order of
  their first insertion, which is the order \<open>items()\<close> gives to \<open>sorted\<close>. It is an
  association list in that order.
\<close>

record agg =
  courses :: int
  hours :: pyfloat

type_synonym company_data = "(pyval \<times> agg) list"

text \<open>
  Lines 23 and 24: \<open>company = row['company']\<close> and \<open>duration = float(row['duration'])\<close>.
  A missing key raises \<open>KeyError\<close>, \<open>float(None)\<close> raises \<open>TypeError\<close>, a text that is not
  a float raises \<open>ValueError\<close>.
\<close>

definition read_row :: "row \<Rightarrow> pyerror + pyval \<times> pyfloat" where
  "read_row r =
     (case r ''company'' of
        None \<Rightarrow> Inl (KeyError ''company'')
      | Some company \<Rightarrow>
          (case r ''duration'' of
             None \<Rightarrow> Inl (KeyError ''duration'')
           | Some PyNone \<Rightarrow> Inl TypeError
           | Some (PyStr s) \<Rightarrow>
               (case py_float s of
                  None \<Rightarrow> Inl (ValueError s)
                | Some duration \<Rightarrow> Inr (company, duration))))"

text \<open>
  Lines 25 and 26: \<open>company_data[company]['courses'] += 1\<close> and
  \<open>company_data[company]['hours'] += duration\<close>. A company not seen before is entered at
  the end with the default value first.
\<close>

fun add_course :: "pyval \<Rightarrow> pyfloat \<Rightarrow> company_data \<Rightarrow> company_data" where
  "add_course company duration [] =
     [(company, \<lparr>courses = 0 + 1, hours = fadd fzero duration\<rparr>)]"
| "add_course company duration ((k, a) # rest) =
     (if k = company
      then (k, \<lparr>courses = courses a + 1, hours = fadd (hours a) duration\<rparr>) # rest
      else (k, a) # add_course company duration rest)"

text \<open>The loop of line 22: the first row that raises ends the run.\<close>

fun aggregate :: "row list \<Rightarrow> company_data \<Rightarrow> pyerror + company_data" where
  "aggregate [] cd = Inr cd"
| "aggregate (r # rows) cd =
     (case read_row r of
        Inl err \<Rightarrow> Inl err
      | Inr (company, duration) \<Rightarrow> aggregate rows (add_course company duration cd))"

subsection \<open>Sorting (line 29)\<close>

text \<open>
  \<open>sorted(xs, key=f, reverse=True)\<close> is a stable sort: the list is reversed, sorted by
  ascending key with a stable algorithm, and reversed again.
\<close>

definition sorted_reverse :: "('a \<Rightarrow> int) \<Rightarrow> 'a list \<Rightarrow> 'a list" where
  "sorted_reverse f xs = rev (sort_key f (rev xs))"

subsection \<open>The report (lines 16 and 32 to 51)\<close>

text \<open>
  Standard output is the list of the texts given to \<open>print\<close>, in order; \<open>print\<close> writes
  its text and a newline.
\<close>

definition stdout_text :: "string list \<Rightarrow> string" where
  "stdout_text out = concat (map (\<lambda>s. s @ [CHR 0x0A]) out)"

definition banner :: string where
  "banner = replicate 70 (CHR ''='')"

text \<open>Line 45, the f-string of a company line; the company is formatted first.\<close>

definition company_line :: "pyval \<Rightarrow> agg \<Rightarrow> pyerror + string" where
  "company_line company data =
     (case format_s 20 company of
        Inl err \<Rightarrow> Inl err
      | Inr name \<Rightarrow>
          Inr (name @ '': '' @ format_d 4 (courses data) @ '' courses  |  '' @
               format_wf 8 1 (hours data) @ '' hours''))"

text \<open>
  The loop of lines 40 to 45, with the running totals and the output so far. When a line
  cannot be formatted the loop stops; what was printed stays printed.
\<close>

fun report_rows ::
  "(pyval \<times> agg) list \<Rightarrow> int \<times> pyfloat \<Rightarrow> string list \<Rightarrow> string list \<times> (pyerror + int \<times> pyfloat)"
where
  "report_rows [] totals out = (out, Inr totals)"
| "report_rows ((company, data) # rest) (total_courses, total_hours) out =
     (case company_line company data of
        Inl err \<Rightarrow> (out, Inl err)
      | Inr line \<Rightarrow>
          report_rows rest (total_courses + courses data, fadd total_hours (hours data))
            (out @ [line]))"

definition total_line :: "int \<Rightarrow> pyfloat \<Rightarrow> string" where
  "total_line total_courses total_hours =
     ''TOTAL: '' @ str_int total_courses @ '' courses  |  '' @ format_f 1 total_hours @ '' hours''"

text \<open>
  \<open>main\<close>, given the text of \<open>csv_path\<close> and the file found there (\<open>None\<close> when \<open>open\<close>
  fails). The result is what was printed and the exception that ended the run, if any.
\<close>

definition reading_line :: "string \<Rightarrow> string" where
  "reading_line csv_path = ''Reading file: '' @ csv_path @ [CHR 0x0A]"

definition report_head :: "string list" where
  "report_head = [banner, ''COURSES AND HOURS BY COMPANY'', banner, []]"

definition report_foot :: "int \<Rightarrow> pyfloat \<Rightarrow> string list" where
  "report_foot total_courses total_hours =
     [[], banner, total_line total_courses total_hours, banner, []]"

definition main :: "string \<Rightarrow> string list list option \<Rightarrow> string list \<times> pyerror option" where
  "main csv_path file =
     (let out = [reading_line csv_path]
      in case file of
           None \<Rightarrow> (out, Some OSError)
         | Some records \<Rightarrow>
             (case aggregate (DictReader records) [] of
                Inl err \<Rightarrow> (out, Some err)
              | Inr company_data \<Rightarrow>
                  (let sorted_companies = sorted_reverse (\<lambda>x. courses (snd x)) company_data
                   in case report_rows sorted_companies (0, fzero) (out @ report_head) of
                        (out', Inl err) \<Rightarrow> (out', Some err)
                      | (out', Inr (total_courses, total_hours)) \<Rightarrow>
                          (out' @ report_foot total_courses total_hours, None))))"

section \<open>Notions used to state the properties\<close>

text \<open>
  A row is valid when it has a \<open>company\<close> text and a \<open>duration\<close> text that \<open>float\<close>
  accepts; a file is valid when all its data rows are. Nothing is asked of the sign or
  the size of the duration, nor of the company text.
\<close>

definition valid_row :: "row \<Rightarrow> bool" where
  "valid_row r =
     (case (r ''company'', r ''duration'') of
        (Some (PyStr c), Some (PyStr s)) \<Rightarrow> py_float s \<noteq> None
      | _ \<Rightarrow> False)"

definition valid_file :: "string list list \<Rightarrow> bool" where
  "valid_file records = list_all valid_row (DictReader records)"

text \<open>
  The company and the parsed duration of each row, for the rows up to the first one that
  raises (all rows, for a valid file).
\<close>

fun parsed_rows :: "row list \<Rightarrow> (pyval \<times> pyfloat) list" where
  "parsed_rows [] = []"
| "parsed_rows (r # rows) =
     (case read_row r of Inl err \<Rightarrow> [] | Inr p \<Rightarrow> p # parsed_rows rows)"

definition company_rows :: "pyval \<Rightarrow> (pyval \<times> pyfloat) list \<Rightarrow> (pyval \<times> pyfloat) list" where
  "company_rows c ps = filter (\<lambda>p. fst p = c) ps"

text \<open>The sum of a list of floats as a loop computes it: from \<open>0.0\<close>, left to right.\<close>

definition fsum :: "pyfloat list \<Rightarrow> pyfloat" where
  "fsum xs = foldl fadd fzero xs"

text \<open>The distinct elements of a list in the order of their first appearance.\<close>

definition first_appearances :: "'a list \<Rightarrow> 'a list" where
  "first_appearances xs = foldl (\<lambda>acc x. if x \<in> set acc then acc else acc @ [x]) [] xs"

text \<open>The aggregation pass on rows that were read without error.\<close>

definition add_courses :: "(pyval \<times> pyfloat) list \<Rightarrow> company_data \<Rightarrow> company_data" where
  "add_courses ps cd = foldl (\<lambda>cd (c, d). add_course c d cd) cd ps"

text \<open>
  The line of a company whose name is a string; \<open>is_line_of x l\<close> says that \<open>l\<close> is the
  line of the entry \<open>x\<close>.
\<close>

definition line_of :: "string \<Rightarrow> agg \<Rightarrow> string" where
  "line_of name a =
     ljust 20 name @ '': '' @ rjust 4 (str_int (courses a)) @ '' courses  |  '' @
     rjust 8 (format_f 1 (hours a)) @ '' hours''"

definition is_line_of :: "pyval \<times> agg \<Rightarrow> string \<Rightarrow> bool" where
  "is_line_of x l = (case fst x of PyStr name \<Rightarrow> l = line_of name (snd x) | PyNone \<Rightarrow> False)"

text \<open>The entries of \<open>company_data\<close> in printed order, for a valid file.\<close>

definition printed_entries :: "string list list \<Rightarrow> (pyval \<times> agg) list" where
  "printed_entries records =
     sorted_reverse (\<lambda>x. courses (snd x)) (add_courses (parsed_rows (DictReader records)) [])"

text \<open>
  The company field as the claim has it: filled and cut to exactly 20 characters.
\<close>

definition claimed_company_field :: "string \<Rightarrow> string" where
  "claimed_company_field name = take 20 name @ replicate (20 - length name) (CHR '' '')"

text \<open>
  A float accumulation is exact when no addition in it rounds: every partial sum is
  finite and its value is the exact sum of the two operands.
\<close>

fun exact_from :: "pyfloat \<Rightarrow> pyfloat list \<Rightarrow> bool" where
  "exact_from acc [] = True"
| "exact_from acc (x # xs) =
     (is_finite (fadd acc x) \<and> float_val (fadd acc x) = float_val acc + float_val x \<and>
      exact_from (fadd acc x) xs)"

definition exact_fsum :: "pyfloat list \<Rightarrow> bool" where
  "exact_fsum xs = exact_from fzero xs"

text \<open>
  The rows of a company and the parsed durations of a list of rows, read from the rows
  themselves: \<open>row['company']\<close> and \<open>float(row['duration'])\<close>.
\<close>

definition rows_of_company :: "pyval \<Rightarrow> row list \<Rightarrow> row list" where
  "rows_of_company c rows = filter (\<lambda>r. r ''company'' = Some c) rows"

definition row_duration :: "row \<Rightarrow> pyfloat option" where
  "row_duration r = (case r ''duration'' of Some (PyStr s) \<Rightarrow> py_float s | _ \<Rightarrow> None)"

fun parsed_durations :: "row list \<Rightarrow> pyfloat list" where
  "parsed_durations [] = []"
| "parsed_durations (r # rows) =
     (case row_duration r of
        None \<Rightarrow> parsed_durations rows
      | Some d \<Rightarrow> d # parsed_durations rows)"

section \<open>The aggregation pass\<close>

lemma keys_add_course:
  "map fst (add_course c d cd) = (if c \<in> set (map fst cd) then map fst cd else map fst cd @ [c])"
proof (induction cd)
  case Nil
  show ?case by simp
next
  case (Cons x cd)
  obtain k a where x: "x = (k, a)" by (cases x)
  show ?case using Cons by (simp add: x del: set_map)
qed

lemma map_of_add_course:
  "map_of (add_course c d cd) =
     (map_of cd)(c \<mapsto>
        (case map_of cd c of
           None \<Rightarrow> \<lparr>courses = 1, hours = fadd fzero d\<rparr>
         | Some a \<Rightarrow> \<lparr>courses = courses a + 1, hours = fadd (hours a) d\<rparr>))"
  by (induction cd) (auto simp: fun_eq_iff)

lemma sum_courses_add_course:
  "sum_list (map (\<lambda>x. courses (snd x)) (add_course c d cd)) =
     sum_list (map (\<lambda>x. courses (snd x)) cd) + 1"
  by (induction cd) auto

lemma add_courses_snoc:
  "add_courses (ps @ [(c, d)]) cd = add_course c d (add_courses ps cd)"
  by (simp add: add_courses_def)

lemma first_appearances_snoc:
  "first_appearances (xs @ [x]) =
     (if x \<in> set (first_appearances xs) then first_appearances xs else first_appearances xs @ [x])"
  by (simp add: first_appearances_def)

lemma fsum_snoc: "fsum (xs @ [x]) = fadd (fsum xs) x"
  by (simp add: fsum_def)

lemma keys_add_courses:
  "map fst (add_courses ps []) = first_appearances (map fst ps)"
proof (induction ps rule: rev_induct)
  case Nil
  show ?case by (simp add: add_courses_def first_appearances_def)
next
  case (snoc p ps)
  obtain c d where p: "p = (c, d)" by (cases p)
  show ?case
    using snoc by (simp add: p add_courses_snoc keys_add_course first_appearances_snoc del: set_map)
qed

lemma set_first_appearances: "set (first_appearances xs) = set xs"
  by (induction xs rule: rev_induct) (auto simp: first_appearances_snoc first_appearances_def)

lemma distinct_first_appearances: "distinct (first_appearances xs)"
  by (induction xs rule: rev_induct) (auto simp: first_appearances_snoc first_appearances_def)

lemma map_of_add_courses:
  "map_of (add_courses ps []) c =
     (if c \<in> fst ` set ps
      then Some \<lparr>courses = int (length (company_rows c ps)),
                 hours = fsum (map snd (company_rows c ps))\<rparr>
      else None)"
proof (induction ps rule: rev_induct)
  case Nil
  show ?case by (simp add: add_courses_def)
next
  case (snoc p ps)
  obtain k d where p: "p = (k, d)" by (cases p)
  have none: "company_rows k ps = []" if "k \<notin> fst ` set ps"
    using that by (auto simp: company_rows_def filter_empty_conv)
  show ?case
  proof (cases "c = k")
    case True
    then show ?thesis
      using snoc none
      by (simp add: p add_courses_snoc map_of_add_course company_rows_def fsum_snoc)
         (simp add: fsum_def)
  next
    case False
    then show ?thesis
      using snoc by (auto simp: p add_courses_snoc map_of_add_course company_rows_def)
  qed
qed

lemma sum_courses_add_courses:
  "sum_list (map (\<lambda>x. courses (snd x)) (add_courses ps [])) = int (length ps)"
proof (induction ps rule: rev_induct)
  case Nil
  show ?case by (simp add: add_courses_def)
next
  case (snoc p ps)
  obtain k d where p: "p = (k, d)" by (cases p)
  show ?case using snoc by (simp add: p add_courses_snoc sum_courses_add_course)
qed

lemma entry_add_courses:
  assumes "(c, a) \<in> set (add_courses ps [])"
  shows "c \<in> fst ` set ps \<and> courses a = int (length (company_rows c ps)) \<and>
         hours a = fsum (map snd (company_rows c ps))"
proof -
  have "distinct (map fst (add_courses ps []))"
    by (simp add: keys_add_courses distinct_first_appearances)
  with assms have "map_of (add_courses ps []) c = Some a" by simp
  then show ?thesis
    by (auto simp: map_of_add_courses split: if_splits)
qed

lemma valid_row_read:
  assumes "valid_row r"
  obtains name d where "read_row r = Inr (PyStr name, d)"
  using assms
  by (auto simp: valid_row_def read_row_def split: option.splits pyval.splits)

lemma aggregate_valid:
  "list_all valid_row rows \<Longrightarrow> aggregate rows cd = Inr (add_courses (parsed_rows rows) cd)"
proof (induction rows arbitrary: cd)
  case Nil
  show ?case by (simp add: add_courses_def)
next
  case (Cons r rows)
  from Cons.prems obtain name d where r: "read_row r = Inr (PyStr name, d)"
    by (auto elim: valid_row_read)
  from Cons show ?case by (simp add: r add_courses_def)
qed

lemma length_parsed_rows:
  "list_all valid_row rows \<Longrightarrow> length (parsed_rows rows) = length rows"
proof (induction rows)
  case Nil
  show ?case by simp
next
  case (Cons r rows)
  from Cons.prems obtain name d where r: "read_row r = Inr (PyStr name, d)"
    by (auto elim: valid_row_read)
  from Cons show ?case by (simp add: r)
qed

lemma parsed_rows_read:
  "list_all valid_row rows \<Longrightarrow> list_all2 (\<lambda>r p. read_row r = Inr p) rows (parsed_rows rows)"
proof (induction rows)
  case Nil
  show ?case by simp
next
  case (Cons r rows)
  from Cons.prems obtain name d where r: "read_row r = Inr (PyStr name, d)"
    by (auto elim: valid_row_read)
  from Cons show ?case by (simp add: r)
qed

lemma parsed_rows_companies:
  "list_all valid_row rows \<Longrightarrow> p \<in> set (parsed_rows rows) \<Longrightarrow> \<exists>name. fst p = PyStr name"
proof (induction rows)
  case Nil
  then show ?case by simp
next
  case (Cons r rows)
  from Cons.prems obtain name d where r: "read_row r = Inr (PyStr name, d)"
    by (auto elim: valid_row_read)
  from Cons show ?case by (auto simp: r)
qed

section \<open>Sorting\<close>

lemma set_sorted_reverse: "set (sorted_reverse f xs) = set xs"
  by (simp add: sorted_reverse_def)

lemma sorted_reverse_descending:
  "sorted_wrt (\<lambda>x y. f y \<le> f x) (sorted_reverse f xs)"
proof -
  have "sorted (map f (sort_key f (rev xs)))" by simp
  then have "sorted_wrt (\<lambda>x y. f x \<le> f y) (sort_key f (rev xs))"
    by (simp add: sorted_wrt_map)
  then show ?thesis
    by (simp add: sorted_reverse_def sorted_wrt_rev)
qed

lemma sorted_reverse_stable:
  "filter (\<lambda>x. f x = k) (sorted_reverse f xs) = filter (\<lambda>x. f x = k) xs"
proof -
  have "filter (\<lambda>x. f x = k) (sort_key f (rev xs)) = filter (\<lambda>x. f x = k) (rev xs)"
    by (rule sort_key_stable)
  then show ?thesis
    by (simp add: sorted_reverse_def rev_filter [symmetric])
qed

lemma sum_list_insort_key:
  "sum_list (map g (insort_key f x xs)) = (g x :: int) + sum_list (map g xs)"
  by (induction xs) auto

lemma sum_list_sort_key:
  "sum_list (map g (sort_key f xs)) = sum_list (map (g :: 'a \<Rightarrow> int) xs)"
  by (induction xs) (simp_all add: sum_list_insort_key)

lemma sum_list_sorted_reverse:
  "sum_list (map g (sorted_reverse f xs)) = sum_list (map (g :: 'a \<Rightarrow> int) xs)"
  by (simp add: sorted_reverse_def rev_map [symmetric] sum_list_sort_key)

section \<open>The report\<close>

lemma company_line_str: "company_line (PyStr name) a = Inr (line_of name a)"
  by (simp add: company_line_def format_s_def format_d_def format_wf_def line_of_def)

lemma report_rows_strings:
  assumes "\<forall>x \<in> set xs. \<exists>name. fst x = PyStr name"
  shows "\<exists>ls. list_all2 is_line_of xs ls \<and>
           report_rows xs (tc, th) out =
             (out @ ls,
              Inr (tc + sum_list (map (\<lambda>x. courses (snd x)) xs),
                   foldl fadd th (map (\<lambda>x. hours (snd x)) xs)))"
  using assms
proof (induction xs arbitrary: tc th out)
  case Nil
  show ?case by simp
next
  case (Cons x xs)
  obtain c a where x: "x = (c, a)" by (cases x)
  from Cons.prems obtain name where c: "c = PyStr name" by (auto simp: x)
  from Cons.prems have "\<forall>x \<in> set xs. \<exists>name. fst x = PyStr name" by simp
  from Cons.IH [OF this, of "tc + courses a" "fadd th (hours a)" "out @ [line_of name a]"]
  obtain ls where ls: "list_all2 is_line_of xs ls"
    and run: "report_rows xs (tc + courses a, fadd th (hours a)) (out @ [line_of name a]) =
      ((out @ [line_of name a]) @ ls,
       Inr (tc + courses a + sum_list (map (\<lambda>x. courses (snd x)) xs),
            foldl fadd (fadd th (hours a)) (map (\<lambda>x. hours (snd x)) xs)))"
    by blast
  have "list_all2 is_line_of (x # xs) (line_of name a # ls)"
    using ls by (simp add: x c is_line_of_def)
  moreover have "report_rows (x # xs) (tc, th) out =
      (out @ line_of name a # ls,
       Inr (tc + sum_list (map (\<lambda>x. courses (snd x)) (x # xs)),
            foldl fadd th (map (\<lambda>x. hours (snd x)) (x # xs))))"
    using run by (simp add: x c company_line_str add.assoc)
  ultimately show ?case by blast
qed

section \<open>The whole run on a valid file\<close>

lemma str_int_0: "str_int 0 = ''0''"
  by (simp add: str_int_def digits.simps digit_char_def)

lemma format_f_fzero: "format_f 1 fzero = ''0.0''"
  by (simp add: format_f_def fzero_def scale2_def round_half_even_def digits.simps digit_char_def)

lemma main_valid:
  assumes "valid_file records"
  shows "\<exists>ls. list_all2 is_line_of (printed_entries records) ls \<and>
           main p (Some records) =
             (reading_line p # report_head @ ls @
                report_foot (int (length (DictReader records)))
                  (fsum (map (\<lambda>x. hours (snd x)) (printed_entries records))),
              None)"
proof -
  let ?rows = "DictReader records"
  let ?ps = "parsed_rows ?rows"
  let ?cd = "add_courses ?ps []"
  have valid: "list_all valid_row ?rows"
    using assms by (simp add: valid_file_def)
  have agg: "aggregate ?rows [] = Inr ?cd"
    by (rule aggregate_valid [OF valid])
  have names: "\<forall>x \<in> set (printed_entries records). \<exists>name. fst x = PyStr name"
  proof
    fix x assume "x \<in> set (printed_entries records)"
    then have "x \<in> set ?cd"
      by (simp add: printed_entries_def set_sorted_reverse)
    then have "fst x \<in> fst ` set ?ps"
      using entry_add_courses [of "fst x" "snd x" ?ps] by simp
    then show "\<exists>name. fst x = PyStr name"
      using parsed_rows_companies [OF valid] by auto
  qed
  from report_rows_strings [OF names, of 0 fzero "[reading_line p] @ report_head"]
  obtain ls where ls: "list_all2 is_line_of (printed_entries records) ls"
    and run: "report_rows (printed_entries records) (0, fzero) ([reading_line p] @ report_head) =
      (([reading_line p] @ report_head) @ ls,
       Inr (0 + sum_list (map (\<lambda>x. courses (snd x)) (printed_entries records)),
            foldl fadd fzero (map (\<lambda>x. hours (snd x)) (printed_entries records))))"
    by blast
  have count: "sum_list (map (\<lambda>x. courses (snd x)) (printed_entries records)) = int (length ?rows)"
    by (simp add: printed_entries_def sum_list_sorted_reverse sum_courses_add_courses
        length_parsed_rows [OF valid])
  have "main p (Some records) =
      (reading_line p # report_head @ ls @
         report_foot (int (length ?rows))
           (fsum (map (\<lambda>x. hours (snd x)) (printed_entries records))),
       None)"
    using run count
    by (simp add: main_def agg printed_entries_def [symmetric] fsum_def)
  with ls show ?thesis by blast
qed

section \<open>Runs that fail while reading\<close>

lemma main_aggregate_error:
  "aggregate (DictReader records) [] = Inl err \<Longrightarrow>
   main p (Some records) = ([reading_line p], Some err)"
  by (simp add: main_def)



lemma dom_foldl_fields:
  "dom (foldl (\<lambda>d (k, v). d(k \<mapsto> PyStr v)) d0 kvs) = dom d0 \<union> fst ` set kvs"
  by (induction kvs arbitrary: d0) auto

lemma dom_foldl_rest:
  "dom (foldl (\<lambda>d k. d(k \<mapsto> PyNone)) d0 ks) = dom d0 \<union> set ks"
  by (induction ks arbitrary: d0) auto

lemma dom_row_dict: "dom (row_dict fieldnames r) = set fieldnames"
proof -
  have "fst ` set (zip fieldnames r) = set (take (length r) fieldnames)"
    by (metis map_fst_zip_take min.commute set_map take_take take_all_iff linear)
  moreover have "set (take (length r) fieldnames) \<union> set (drop (length r) fieldnames) = set fieldnames"
    by (metis append_take_drop_id set_append)
  ultimately show ?thesis
    by (simp add: row_dict_def dom_foldl_fields dom_foldl_rest)
qed

lemma row_dict_missing: "k \<notin> set fieldnames \<Longrightarrow> row_dict fieldnames r k = None"
  using dom_row_dict [of fieldnames r] by blast

lemma row_dict_present: "k \<in> set fieldnames \<Longrightarrow> row_dict fieldnames r k \<noteq> None"
  using dom_row_dict [of fieldnames r] by blast



text \<open>
  C6 (as the code has it). When the input file cannot be opened the run ends with the
  error of \<open>open\<close>, after the \<open>Reading file\<close> line (and the empty line that follows it)
  has been written to standard output; nothing else is printed.
\<close>

theorem missing_file_output:
  "main p None = ([reading_line p], Some OSError) \<and>
   stdout_text (fst (main p None)) = ''Reading file: '' @ p @ [CHR 0x0A, CHR 0x0A]"
  by (simp add: main_def stdout_text_def reading_line_def)

text \<open>The claim as written, no output at all, fails: standard output is not empty.\<close>

theorem missing_file_counterexample:
  "snd (main ''complete_courses.csv'' None) = Some OSError \<and>
   stdout_text (fst (main ''complete_courses.csv'' None)) \<noteq> []"
  by (simp add: main_def stdout_text_def reading_line_def)

text \<open>
  C7. When the header has no \<open>company\<close> column or no \<open>duration\<close> column and the file has
  a data row, the first data row raises \<open>KeyError\<close> (for \<open>company\<close> if that is missing,
  else for \<open>duration\<close>) and the run ends there, with only the \<open>Reading file\<close> line
  printed.
\<close>

theorem missing_column_fails:
  assumes "''company'' \<notin> set fieldnames \<or> ''duration'' \<notin> set fieldnames"
    and "r \<in> set records" and "r \<noteq> []"
  shows "\<exists>row rows key.
           DictReader (fieldnames # records) = row # rows \<and>
           key = (if ''company'' \<notin> set fieldnames then ''company'' else ''duration'') \<and>
           read_row row = Inl (KeyError key) \<and>
           main p (Some (fieldnames # records)) = ([reading_line p], Some (KeyError key))"
proof -
  let ?key = "if ''company'' \<notin> set fieldnames then ''company'' else ''duration''"
  from assms(2,3) have "filter (\<lambda>r. r \<noteq> []) records \<noteq> []"
    by (auto simp: filter_empty_conv)
  then obtain r1 rest where rs: "filter (\<lambda>r. r \<noteq> []) records = r1 # rest"
    by (cases "filter (\<lambda>r. r \<noteq> []) records") auto
  let ?row = "row_dict fieldnames r1"
  have rows: "DictReader (fieldnames # records) = ?row # map (row_dict fieldnames) rest"
    by (simp add: rs)
  have read: "read_row ?row = Inl (KeyError ?key)"
  proof (cases "''company'' \<in> set fieldnames")
    case True
    with assms(1) have "''duration'' \<notin> set fieldnames" by simp
    with True show ?thesis
      using row_dict_present [OF True, of r1]
      by (auto simp: read_row_def row_dict_missing split: option.splits)
  next
    case False
    then show ?thesis by (simp add: read_row_def row_dict_missing)
  qed
  then have "aggregate (DictReader (fieldnames # records)) [] = Inl (KeyError ?key)"
    by (simp add: rs)
  from main_aggregate_error [OF this] rows read show ?thesis by blast
qed

theorem missing_column_fails_witness:
  "main ''complete_courses.csv'' (Some [[''company'', ''hours''], [], [''Acme'', ''2.5'']]) =
     ([reading_line ''complete_courses.csv''], Some (KeyError ''duration''))"
proof -
  have a: "''company'' \<notin> set [''company'', ''hours''] \<or> ''duration'' \<notin> set [''company'', ''hours'']"
    by simp
  have b: "[''Acme'', ''2.5''] \<in> set [[], [''Acme'', ''2.5'']]" by simp
  have c: "[''Acme'', ''2.5''] \<noteq> []" by simp
  from missing_column_fails [OF a b c, of "''complete_courses.csv''"]
  show ?thesis by auto
qed

text \<open>
  C8. A file with a header and no data rows (blank lines may follow the header) gives a
  run without error whose report has no company line and the totals line
  \<open>TOTAL: 0 courses  |  0.0 hours\<close>.
\<close>

theorem header_only_report:
  "main p (Some (fieldnames # replicate n [])) =
     ([reading_line p, banner, ''COURSES AND HOURS BY COMPANY'', banner, [],
       [], banner, ''TOTAL: 0 courses  |  0.0 hours'', banner, []],
      None)"
  using str_int_0 format_f_fzero
  by (simp add: main_def sorted_reverse_def report_head_def report_foot_def total_line_def)

text \<open>
  C3. For every valid file the company lines are printed in the order of
  \<open>printed_entries\<close>: the course counts do not increase from one line to the next, and
  for every count \<open>k\<close> the companies with \<open>k\<close> courses are printed in the order of their
  first appearance in the file.
\<close>

theorem report_order:
  assumes "valid_file records"
  shows "\<exists>ls total_courses total_hours.
           fst (main p (Some records)) =
             reading_line p # report_head @ ls @ report_foot total_courses total_hours \<and>
           list_all2 is_line_of (printed_entries records) ls \<and>
           sorted_wrt (\<lambda>x y. courses (snd y) \<le> courses (snd x)) (printed_entries records) \<and>
           (\<forall>k. map fst (filter (\<lambda>x. courses (snd x) = k) (printed_entries records)) =
                filter (\<lambda>c. int (length (company_rows c (parsed_rows (DictReader records)))) = k)
                  (first_appearances (map fst (parsed_rows (DictReader records)))))"
proof -
  let ?ps = "parsed_rows (DictReader records)"
  let ?cd = "add_courses ?ps []"
  from main_valid [OF assms, of p]
  obtain ls where ls: "list_all2 is_line_of (printed_entries records) ls"
    and out: "fst (main p (Some records)) =
      reading_line p # report_head @ ls @
        report_foot (int (length (DictReader records)))
          (fsum (map (\<lambda>x. hours (snd x)) (printed_entries records)))"
    by force
  have desc: "sorted_wrt (\<lambda>x y. courses (snd y) \<le> courses (snd x)) (printed_entries records)"
    unfolding printed_entries_def by (rule sorted_reverse_descending)
  have ties: "map fst (filter (\<lambda>x. courses (snd x) = k) (printed_entries records)) =
      filter (\<lambda>c. int (length (company_rows c ?ps)) = k) (first_appearances (map fst ?ps))" for k
  proof -
    have "filter (\<lambda>x. courses (snd x) = k) (printed_entries records) =
        filter (\<lambda>x. courses (snd x) = k) ?cd"
      unfolding printed_entries_def by (rule sorted_reverse_stable)
    also have "\<dots> = filter (\<lambda>x. int (length (company_rows (fst x) ?ps)) = k) ?cd"
      using entry_add_courses [of _ _ ?ps] by (intro filter_cong) auto
    finally have "map fst (filter (\<lambda>x. courses (snd x) = k) (printed_entries records)) =
        filter (\<lambda>c. int (length (company_rows c ?ps)) = k) (map fst ?cd)"
      by (simp add: filter_map comp_def)
    then show ?thesis by (simp add: keys_add_courses)
  qed
  from out ls desc ties show ?thesis by blast
qed

theorem report_order_witness:
  "valid_file [[''company'', ''duration''], [''Initech'', ''1''], [''Acme'', ''2.5''],
               [''Globex'', ''3.0''], [''Acme'', ''1.5'']] \<and>
   map fst (printed_entries [[''company'', ''duration''], [''Initech'', ''1''], [''Acme'', ''2.5''],
               [''Globex'', ''3.0''], [''Acme'', ''1.5'']]) =
     [PyStr ''Acme'', PyStr ''Initech'', PyStr ''Globex''] \<and>
   sorted_wrt (\<lambda>x y. courses (snd y) \<le> courses (snd x))
     (printed_entries [[''company'', ''duration''], [''Initech'', ''1''], [''Acme'', ''2.5''],
               [''Globex'', ''3.0''], [''Acme'', ''1.5'']])"
proof -
  let ?records = "[[''company'', ''duration''], [''Initech'', ''1''], [''Acme'', ''2.5''],
               [''Globex'', ''3.0''], [''Acme'', ''1.5'']]"
  have v: "valid_file ?records" by code_simp
  have e: "map fst (printed_entries ?records) = [PyStr ''Acme'', PyStr ''Initech'', PyStr ''Globex'']"
    by code_simp
  from report_order [OF v] have
    "sorted_wrt (\<lambda>x y. courses (snd y) \<le> courses (snd x)) (printed_entries ?records)"
    by blast
  with v e show ?thesis by blast
qed

section \<open>The layout of a company line\<close>

lemma digit_char_is_digit:
  assumes "0 \<le> k" and "k < 10"
  shows "is_digit (digit_char k)"
proof -
  from assms have "k = 0 \<or> k = 1 \<or> k = 2 \<or> k = 3 \<or> k = 4 \<or> k = 5 \<or> k = 6 \<or> k = 7 \<or>
      k = 8 \<or> k = 9"
    by arith
  then show ?thesis by (auto simp: is_digit_def digit_char_def)
qed

lemma format_f_1_finite:
  assumes "is_finite h"
  shows "\<exists>ip d. format_f 1 h = ip @ [CHR ''.'', d] \<and> is_digit d"
proof -
  from assms obtain s m e where h: "h = Finite s m e"
    by (cases h) (auto simp: is_finite_def)
  define t where "t = round_half_even (fst (scale2 (m * 10) 1 e)) (snd (scale2 (m * 10) 1 e))"
  have d: "digits (t mod 10) = [digit_char (t mod 10)]"
    by (subst digits.simps) simp
  have "format_f 1 h =
      ((if s then ''-'' else '''') @ digits (t div 10)) @ [CHR ''.'', digit_char (t mod 10)]"
    by (simp add: h format_f_def t_def [symmetric] d Let_def)
  moreover have "is_digit (digit_char (t mod 10))"
    by (rule digit_char_is_digit) simp_all
  ultimately show ?thesis by blast
qed

text \<open>
  C5 (as the code has it). For every valid file each company line is the company name,
  filled with spaces on its right up to 20 characters and never cut, then \<open>: \<close>, the
  course count filled with spaces on its left up to 4 characters, then
  \<open> courses  |  \<close>, the hours with one digit after the point filled with spaces on the
  left up to 8 characters, then \<open> hours\<close>. The three widths are minimum widths: when
  the three texts fit, the line is 53 characters long. Finite hours are written with a
  point and exactly one digit after it.
\<close>

theorem company_line_layout:
  assumes "valid_file records"
  shows "\<exists>ls total_courses total_hours.
           main p (Some records) =
             (reading_line p # report_head @ ls @ report_foot total_courses total_hours, None) \<and>
           list_all2
             (\<lambda>x l. \<exists>name count hrs.
                fst x = PyStr name \<and> count = str_int (courses (snd x)) \<and>
                hrs = format_f 1 (hours (snd x)) \<and>
                l = name @ replicate (20 - length name) (CHR '' '') @ '': '' @
                    replicate (4 - length count) (CHR '' '') @ count @ '' courses  |  '' @
                    replicate (8 - length hrs) (CHR '' '') @ hrs @ '' hours'' \<and>
                (length name \<le> 20 \<and> length count \<le> 4 \<and> length hrs \<le> 8 \<longrightarrow> length l = 53) \<and>
                (is_finite (hours (snd x)) \<longrightarrow> (\<exists>ip d. hrs = ip @ [CHR ''.'', d] \<and> is_digit d)))
             (printed_entries records) ls"
proof -
  from main_valid [OF assms, of p]
  obtain ls where ls: "list_all2 is_line_of (printed_entries records) ls"
    and out: "main p (Some records) =
      (reading_line p # report_head @ ls @
         report_foot (int (length (DictReader records)))
           (fsum (map (\<lambda>x. hours (snd x)) (printed_entries records))),
       None)"
    by blast
  have step: "\<exists>name count hrs.
          fst x = PyStr name \<and> count = str_int (courses (snd x)) \<and>
          hrs = format_f 1 (hours (snd x)) \<and>
          l = name @ replicate (20 - length name) (CHR '' '') @ '': '' @
              replicate (4 - length count) (CHR '' '') @ count @ '' courses  |  '' @
              replicate (8 - length hrs) (CHR '' '') @ hrs @ '' hours'' \<and>
          (length name \<le> 20 \<and> length count \<le> 4 \<and> length hrs \<le> 8 \<longrightarrow> length l = 53) \<and>
          (is_finite (hours (snd x)) \<longrightarrow> (\<exists>ip d. hrs = ip @ [CHR ''.'', d] \<and> is_digit d))"
    if "is_line_of x l" for x l
  proof -
    from that obtain name where name: "fst x = PyStr name" and l: "l = line_of name (snd x)"
      by (auto simp: is_line_of_def split: pyval.splits)
    show ?thesis
      using format_f_1_finite [of "hours (snd x)"]
      by (auto simp: name l line_of_def ljust_def rjust_def)
  qed
  from ls have "list_all2
      (\<lambda>x l. \<exists>name count hrs.
          fst x = PyStr name \<and> count = str_int (courses (snd x)) \<and>
          hrs = format_f 1 (hours (snd x)) \<and>
          l = name @ replicate (20 - length name) (CHR '' '') @ '': '' @
              replicate (4 - length count) (CHR '' '') @ count @ '' courses  |  '' @
              replicate (8 - length hrs) (CHR '' '') @ hrs @ '' hours'' \<and>
          (length name \<le> 20 \<and> length count \<le> 4 \<and> length hrs \<le> 8 \<longrightarrow> length l = 53) \<and>
          (is_finite (hours (snd x)) \<longrightarrow> (\<exists>ip d. hrs = ip @ [CHR ''.'', d] \<and> is_digit d)))
      (printed_entries records) ls"
    by (rule list_all2_mono) (rule step)
  with out show ?thesis by blast
qed

theorem company_line_layout_witness:
  "valid_file [[''company'', ''duration''], [''Acme'', ''2.5''], [''Acme'', ''1.5'']] \<and>
   main ''complete_courses.csv''
     (Some [[''company'', ''duration''], [''Acme'', ''2.5''], [''Acme'', ''1.5'']]) =
     ([reading_line ''complete_courses.csv'', banner, ''COURSES AND HOURS BY COMPANY'', banner, [],
       ''Acme                :    2 courses  |       4.0 hours'',
       [], banner, ''TOTAL: 2 courses  |  4.0 hours'', banner, []], None) \<and>
   (\<exists>ls total_courses total_hours.
      main ''complete_courses.csv''
        (Some [[''company'', ''duration''], [''Acme'', ''2.5''], [''Acme'', ''1.5'']]) =
        (reading_line ''complete_courses.csv'' # report_head @ ls @
           report_foot total_courses total_hours, None) \<and>
      list_all2 (\<lambda>x l. is_finite (hours (snd x)) \<longrightarrow> length l = 53)
        (printed_entries [[''company'', ''duration''], [''Acme'', ''2.5''], [''Acme'', ''1.5'']]) ls)"
proof -
  let ?records = "[[''company'', ''duration''], [''Acme'', ''2.5''], [''Acme'', ''1.5'']]"
  have v: "valid_file ?records" by code_simp
  have e: "main ''complete_courses.csv'' (Some ?records) =
     ([reading_line ''complete_courses.csv'', banner, ''COURSES AND HOURS BY COMPANY'', banner, [],
       ''Acme                :    2 courses  |       4.0 hours'',
       [], banner, ''TOTAL: 2 courses  |  4.0 hours'', banner, []], None)"
    by code_simp
  from company_line_layout [OF v, of "''complete_courses.csv''"]
  obtain ls total_courses total_hours where
    out: "main ''complete_courses.csv'' (Some ?records) =
        (reading_line ''complete_courses.csv'' # report_head @ ls @
           report_foot total_courses total_hours, None)"
    by blast
  have ls: "ls = [''Acme                :    2 courses  |       4.0 hours'']"
    using out e by (auto simp: report_head_def report_foot_def)
  have p: "printed_entries ?records =
      [(PyStr ''Acme'', \<lparr>courses = 2, hours = Finite False 4503599627370496 (- 50)\<rparr>)]"
    by code_simp
  have "list_all2 (\<lambda>x l. is_finite (hours (snd x)) \<longrightarrow> length l = 53) (printed_entries ?records) ls"
    by (simp add: p ls)
  with v e out show ?thesis by blast
qed

text \<open>
  The claim as written fails for a company name longer than 20 characters: the name is
  printed in full, so the line does not begin with the name cut to 20 characters and
  \<open>: \<close>.
\<close>

theorem company_line_counterexample:
  "valid_file [[''company'', ''duration''], [''International Business Machines'', ''1.5'']] \<and>
   main ''complete_courses.csv''
     (Some [[''company'', ''duration''], [''International Business Machines'', ''1.5'']]) =
     ([reading_line ''complete_courses.csv'', banner, ''COURSES AND HOURS BY COMPANY'', banner, [],
       ''International Business Machines:    1 courses  |       1.5 hours'',
       [], banner, ''TOTAL: 1 courses  |  1.5 hours'', banner, []], None) \<and>
   claimed_company_field ''International Business Machines'' = ''International Busine'' \<and>
   take 22 ''International Business Machines:    1 courses  |       1.5 hours'' \<noteq>
     claimed_company_field ''International Business Machines'' @ '': ''"
  by code_simp

section \<open>The grand totals\<close>

lemma float_val_exact_from:
  "exact_from acc xs \<Longrightarrow>
   float_val (foldl fadd acc xs) = float_val acc + sum_list (map float_val xs)"
  by (induction xs arbitrary: acc) auto

lemma float_val_fzero: "float_val fzero = 0"
  by (simp add: float_val_def fzero_def scale2_def)

lemma float_val_exact_fsum:
  "exact_fsum xs \<Longrightarrow> float_val (fsum xs) = sum_list (map float_val xs)"
  using float_val_exact_from [of fzero xs]
  by (simp add: exact_fsum_def fsum_def float_val_fzero)

lemma sum_list_absent_key:
  "k \<notin> set ks \<Longrightarrow> sum_list (map (\<lambda>c. if k = c then v else 0) ks) = (0 :: rat)"
  by (induction ks) auto

lemma sum_list_single_key:
  assumes "distinct ks" and "k \<in> set ks"
  shows "sum_list (map (\<lambda>c. if k = c then v else 0) ks) = (v :: rat)"
  using assms by (induction ks) (auto simp: sum_list_absent_key)

lemma sum_list_by_company:
  assumes "distinct ks" and "fst ` set ps \<subseteq> set ks"
  shows "sum_list (map (\<lambda>c. sum_list (map g (company_rows c ps))) ks) =
         (sum_list (map g ps) :: rat)"
  using assms(2)
proof (induction ps)
  case Nil
  show ?case by (simp add: company_rows_def)
next
  case (Cons p ps)
  have split: "sum_list (map g (company_rows c (p # ps))) =
      (if fst p = c then g p else 0) + sum_list (map g (company_rows c ps))" for c
    by (simp add: company_rows_def)
  from Cons.prems have k: "fst p \<in> set ks" and rest: "fst ` set ps \<subseteq> set ks" by auto
  have "sum_list (map (\<lambda>c. sum_list (map g (company_rows c (p # ps)))) ks) =
      sum_list (map (\<lambda>c. if fst p = c then g p else 0) ks) +
      sum_list (map (\<lambda>c. sum_list (map g (company_rows c ps))) ks)"
    by (simp add: split sum_list_addf)
  also have "\<dots> = g p + sum_list (map g ps)"
    by (simp add: sum_list_single_key [OF assms(1) k] Cons.IH [OF rest])
  finally show ?case by simp
qed

lemma distinct_keys_printed_entries:
  "distinct (map fst (printed_entries records))"
proof -
  let ?cd = "add_courses (parsed_rows (DictReader records)) []"
  have d: "distinct (map fst ?cd)"
    by (simp add: keys_add_courses distinct_first_appearances)
  then have "distinct ?cd" and "inj_on fst (set ?cd)"
    by (simp_all add: distinct_map)
  then show ?thesis
    by (simp add: printed_entries_def sorted_reverse_def distinct_map)
qed

lemma keys_printed_entries:
  "set (map fst (printed_entries records)) = fst ` set (parsed_rows (DictReader records))"
proof -
  have "set (map fst (add_courses (parsed_rows (DictReader records)) [])) =
      fst ` set (parsed_rows (DictReader records))"
    by (simp add: keys_add_courses set_first_appearances del: set_map) simp
  then show ?thesis
    by (simp add: printed_entries_def set_sorted_reverse)
qed

lemma hours_printed_entries:
  assumes "x \<in> set (printed_entries records)"
  shows "hours (snd x) = fsum (map snd (company_rows (fst x) (parsed_rows (DictReader records))))"
proof -
  from assms have "(fst x, snd x) \<in> set (add_courses (parsed_rows (DictReader records)) [])"
    by (simp add: printed_entries_def set_sorted_reverse)
  from entry_add_courses [OF this] show ?thesis by simp
qed

lemma exact_total:
  assumes each: "\<forall>x \<in> set (printed_entries records).
      exact_fsum (map snd (company_rows (fst x) (parsed_rows (DictReader records))))"
    and total: "exact_fsum (map (\<lambda>x. hours (snd x)) (printed_entries records))"
  shows "float_val (fsum (map (\<lambda>x. hours (snd x)) (printed_entries records))) =
         sum_list (map (\<lambda>p. float_val (snd p)) (parsed_rows (DictReader records)))"
proof -
  let ?ps = "parsed_rows (DictReader records)"
  let ?es = "printed_entries records"
  have "float_val (fsum (map (\<lambda>x. hours (snd x)) ?es)) =
      sum_list (map (\<lambda>x. float_val (hours (snd x))) ?es)"
    using float_val_exact_fsum [OF total] by (simp add: comp_def)
  also have "\<dots> = sum_list (map (\<lambda>x. sum_list (map (\<lambda>p. float_val (snd p))
      (company_rows (fst x) ?ps))) ?es)"
  proof (rule arg_cong [where f = sum_list], rule map_cong [OF refl])
    fix x assume x: "x \<in> set ?es"
    from each x have "exact_fsum (map snd (company_rows (fst x) ?ps))" by blast
    from float_val_exact_fsum [OF this] hours_printed_entries [OF x]
    show "float_val (hours (snd x)) =
        sum_list (map (\<lambda>p. float_val (snd p)) (company_rows (fst x) ?ps))"
      by (simp add: comp_def)
  qed
  also have "\<dots> = sum_list (map (\<lambda>c. sum_list (map (\<lambda>p. float_val (snd p))
      (company_rows c ?ps))) (map fst ?es))"
    by (simp add: comp_def)
  also have "\<dots> = sum_list (map (\<lambda>p. float_val (snd p)) ?ps)"
    by (rule sum_list_by_company)
       (simp_all add: distinct_keys_printed_entries keys_printed_entries del: set_map)
  finally show ?thesis .
qed

text \<open>
  C2 (as the code has it). For every valid file the totals line shows the number of data
  rows and, with one decimal, the float sum of the companies' hours, added from \<open>0.0\<close> in
  printed order, where the hours of a company are the float sum of its rows' durations,
  added from \<open>0.0\<close> in file order. When none of these additions rounds, the total is
  the exact sum of all parsed durations.
\<close>

theorem grand_totals:
  assumes "valid_file records"
  shows "\<exists>ls.
           main p (Some records) =
             (reading_line p # report_head @ ls @
                [[], banner,
                 total_line (int (length (DictReader records)))
                   (fsum (map (\<lambda>x. hours (snd x)) (printed_entries records))),
                 banner, []],
              None) \<and>
           length ls = length (printed_entries records) \<and>
           (\<forall>x \<in> set (printed_entries records).
              hours (snd x) =
                fsum (map snd (company_rows (fst x) (parsed_rows (DictReader records))))) \<and>
           ((\<forall>x \<in> set (printed_entries records).
               exact_fsum (map snd (company_rows (fst x) (parsed_rows (DictReader records))))) \<and>
            exact_fsum (map (\<lambda>x. hours (snd x)) (printed_entries records)) \<longrightarrow>
            float_val (fsum (map (\<lambda>x. hours (snd x)) (printed_entries records))) =
              sum_list (map (\<lambda>p. float_val (snd p)) (parsed_rows (DictReader records))))"
proof -
  from main_valid [OF assms, of p]
  obtain ls where ls: "list_all2 is_line_of (printed_entries records) ls"
    and out: "main p (Some records) =
      (reading_line p # report_head @ ls @
         report_foot (int (length (DictReader records)))
           (fsum (map (\<lambda>x. hours (snd x)) (printed_entries records))),
       None)"
    by blast
  from ls have "length ls = length (printed_entries records)"
    by (simp add: list_all2_lengthD)
  with out hours_printed_entries exact_total show ?thesis
    unfolding report_foot_def by blast
qed

theorem grand_totals_witness:
  "valid_file [[''company'', ''duration''], [''Acme'', ''2.5''], [''Acme'', ''1.5''], [''Globex'', ''3.0'']] \<and>
   main ''complete_courses.csv''
     (Some [[''company'', ''duration''], [''Acme'', ''2.5''], [''Acme'', ''1.5''], [''Globex'', ''3.0'']]) =
     ([reading_line ''complete_courses.csv'', banner, ''COURSES AND HOURS BY COMPANY'', banner, [],
       ''Acme                :    2 courses  |       4.0 hours'',
       ''Globex              :    1 courses  |       3.0 hours'',
       [], banner, ''TOTAL: 3 courses  |  7.0 hours'', banner, []], None) \<and>
   float_val (fsum (map (\<lambda>x. hours (snd x))
     (printed_entries [[''company'', ''duration''], [''Acme'', ''2.5''], [''Acme'', ''1.5''], [''Globex'', ''3.0'']]))) = 7"
proof -
  let ?records = "[[''company'', ''duration''], [''Acme'', ''2.5''], [''Acme'', ''1.5''], [''Globex'', ''3.0'']]"
  have v: "valid_file ?records" by code_simp
  have e: "main ''complete_courses.csv'' (Some ?records) =
     ([reading_line ''complete_courses.csv'', banner, ''COURSES AND HOURS BY COMPANY'', banner, [],
       ''Acme                :    2 courses  |       4.0 hours'',
       ''Globex              :    1 courses  |       3.0 hours'',
       [], banner, ''TOTAL: 3 courses  |  7.0 hours'', banner, []], None)"
    by code_simp
  have each: "\<forall>x \<in> set (printed_entries ?records).
      exact_fsum (map snd (company_rows (fst x) (parsed_rows (DictReader ?records))))"
    by code_simp
  have total: "exact_fsum (map (\<lambda>x. hours (snd x)) (printed_entries ?records))"
    by code_simp
  have s: "sum_list (map (\<lambda>p. float_val (snd p)) (parsed_rows (DictReader ?records))) = 7"
    by code_simp
  from grand_totals [OF v, of "''complete_courses.csv''"] each total
  have "float_val (fsum (map (\<lambda>x. hours (snd x)) (printed_entries ?records))) =
      sum_list (map (\<lambda>p. float_val (snd p)) (parsed_rows (DictReader ?records)))"
    by blast
  with v e s show ?thesis by simp
qed

text \<open>
  The claim as written fails when an addition rounds. With the durations 1,
  9007199254740992, 1 and 1 the exact sum is 9007199254740995, the float sum in file
  order is 9007199254740992, and the totals line shows 9007199254740996.0.
\<close>

theorem grand_totals_counterexample:
  "valid_file [[''company'', ''duration''], [''Acme'', ''1''], [''Globex'', ''9007199254740992''],
               [''Acme'', ''1''], [''Initech'', ''1'']] \<and>
   main ''complete_courses.csv''
     (Some [[''company'', ''duration''], [''Acme'', ''1''], [''Globex'', ''9007199254740992''],
            [''Acme'', ''1''], [''Initech'', ''1'']]) =
     ([reading_line ''complete_courses.csv'', banner, ''COURSES AND HOURS BY COMPANY'', banner, [],
       ''Acme                :    2 courses  |       2.0 hours'',
       ''Globex              :    1 courses  |  9007199254740992.0 hours'',
       ''Initech             :    1 courses  |       1.0 hours'',
       [], banner, ''TOTAL: 4 courses  |  9007199254740996.0 hours'', banner, []], None) \<and>
   sum_list (map (\<lambda>p. float_val (snd p))
     (parsed_rows (DictReader [[''company'', ''duration''], [''Acme'', ''1''],
        [''Globex'', ''9007199254740992''], [''Acme'', ''1''], [''Initech'', ''1'']]))) =
     9007199254740995 \<and>
   float_val (fsum (map (\<lambda>x. hours (snd x))
     (printed_entries [[''company'', ''duration''], [''Acme'', ''1''],
        [''Globex'', ''9007199254740992''], [''Acme'', ''1''], [''Initech'', ''1'']]))) =
     9007199254740996 \<and>
   format_f 1 (fsum (map snd
     (parsed_rows (DictReader [[''company'', ''duration''], [''Acme'', ''1''],
        [''Globex'', ''9007199254740992''], [''Acme'', ''1''], [''Initech'', ''1'']])))) =
     ''9007199254740992.0''"
  by code_simp

text \<open>
  C10. The texts \<open>-2\<close>, \<open>inf\<close> and \<open>nan\<close> are accepted by \<open>float\<close>. A row with a company
  and a duration text that \<open>float\<close> accepts is read without error whatever the value is
  (negative, infinite, NaN): the loop goes on with the value added to the hours of the
  row's company and its count raised by one. A file of such rows is reported without
  error, the grand total being the float sum of the companies' hours.
\<close>

theorem any_float_is_added:
  assumes "r ''company'' = Some c"
    and "r ''duration'' = Some (PyStr s)"
    and "py_float s = Some d"
  shows "py_float ''-2'' = Some (Finite True 4503599627370496 (- 51)) \<and>
         py_float ''inf'' = Some (Infinity False) \<and>
         py_float ''nan'' = Some NaN \<and>
         read_row r = Inr (c, d) \<and>
         aggregate (r # rows) cd = aggregate rows (add_course c d cd) \<and>
         (\<exists>a. map_of (add_course c d cd) c = Some a \<and>
              hours a = fadd (case map_of cd c of None \<Rightarrow> fzero | Some a0 \<Rightarrow> hours a0) d \<and>
              courses a = (case map_of cd c of None \<Rightarrow> 0 | Some a0 \<Rightarrow> courses a0) + 1) \<and>
         (valid_file records \<longrightarrow>
            (\<exists>ls. main p (Some records) =
               (reading_line p # report_head @ ls @
                  report_foot (int (length (DictReader records)))
                    (fsum (map (\<lambda>x. hours (snd x)) (printed_entries records))),
                None)))"
proof -
  have a: "py_float ''-2'' = Some (Finite True 4503599627370496 (- 51))" by code_simp
  have b: "py_float ''inf'' = Some (Infinity False)" by code_simp
  have n: "py_float ''nan'' = Some NaN" by code_simp
  have read: "read_row r = Inr (c, d)"
    using assms by (simp add: read_row_def)
  then have step: "aggregate (r # rows) cd = aggregate rows (add_course c d cd)"
    by simp
  have entry: "\<exists>a. map_of (add_course c d cd) c = Some a \<and>
      hours a = fadd (case map_of cd c of None \<Rightarrow> fzero | Some a0 \<Rightarrow> hours a0) d \<and>
      courses a = (case map_of cd c of None \<Rightarrow> 0 | Some a0 \<Rightarrow> courses a0) + 1"
    by (simp add: map_of_add_course split: option.splits)
  have "valid_file records \<longrightarrow>
      (\<exists>ls. main p (Some records) =
         (reading_line p # report_head @ ls @
            report_foot (int (length (DictReader records)))
              (fsum (map (\<lambda>x. hours (snd x)) (printed_entries records))),
          None))"
    using main_valid [of records p] by blast
  with a b n read step entry show ?thesis by blast
qed

theorem any_float_is_added_witness:
  "read_row (row_dict [''company'', ''duration''] [''Acme'', ''-2'']) =
     Inr (PyStr ''Acme'', Finite True 4503599627370496 (- 51)) \<and>
   valid_file [[''company'', ''duration''], [''Acme'', ''-2''], [''Globex'', ''inf''],
               [''Initech'', ''nan''], [''Acme'', ''-1.5'']] \<and>
   main ''complete_courses.csv''
     (Some [[''company'', ''duration''], [''Acme'', ''-2''], [''Globex'', ''inf''],
            [''Initech'', ''nan''], [''Acme'', ''-1.5'']]) =
     ([reading_line ''complete_courses.csv'', banner, ''COURSES AND HOURS BY COMPANY'', banner, [],
       ''Acme                :    2 courses  |      -3.5 hours'',
       ''Globex              :    1 courses  |       inf hours'',
       ''Initech             :    1 courses  |       nan hours'',
       [], banner, ''TOTAL: 4 courses  |  nan hours'', banner, []], None)"
proof -
  let ?r = "row_dict [''company'', ''duration''] [''Acme'', ''-2'']"
  let ?records = "[[''company'', ''duration''], [''Acme'', ''-2''], [''Globex'', ''inf''],
               [''Initech'', ''nan''], [''Acme'', ''-1.5'']]"
  have c: "?r ''company'' = Some (PyStr ''Acme'')" by (simp add: row_dict_def)
  have s: "?r ''duration'' = Some (PyStr ''-2'')" by (simp add: row_dict_def)
  have d: "py_float ''-2'' = Some (Finite True 4503599627370496 (- 51))" by code_simp
  have v: "valid_file ?records" by code_simp
  have e: "main ''complete_courses.csv'' (Some ?records) =
     ([reading_line ''complete_courses.csv'', banner, ''COURSES AND HOURS BY COMPANY'', banner, [],
       ''Acme                :    2 courses  |      -3.5 hours'',
       ''Globex              :    1 courses  |       inf hours'',
       ''Initech             :    1 courses  |       nan hours'',
       [], banner, ''TOTAL: 4 courses  |  nan hours'', banner, []], None)"
    by code_simp
  from any_float_is_added [OF c s d, of "[]" "[]" ?records "''complete_courses.csv''"]
  have "read_row ?r = Inr (PyStr ''Acme'', Finite True 4503599627370496 (- 51))"
    by blast
  with v e show ?thesis by blast
qed

section \<open>The aggregate of a company\<close>

lemma valid_row_fields:
  assumes "valid_row r"
  obtains name d where "r ''company'' = Some (PyStr name)" and "row_duration r = Some d"
    and "read_row r = Inr (PyStr name, d)"
  using assms
  by (auto simp: valid_row_def read_row_def row_duration_def split: option.splits pyval.splits)

lemma company_rows_parsed:
  "list_all valid_row rows \<Longrightarrow>
   map snd (company_rows c (parsed_rows rows)) = parsed_durations (rows_of_company c rows) \<and>
   length (company_rows c (parsed_rows rows)) = length (rows_of_company c rows)"
proof (induction rows)
  case Nil
  show ?case by (simp add: company_rows_def rows_of_company_def)
next
  case (Cons r rows)
  from Cons.prems obtain name d where r: "r ''company'' = Some (PyStr name)"
    "row_duration r = Some d" "read_row r = Inr (PyStr name, d)"
    by (auto elim: valid_row_fields)
  from Cons have IH:
    "map snd (company_rows c (parsed_rows rows)) = parsed_durations (rows_of_company c rows)"
    "length (company_rows c (parsed_rows rows)) = length (rows_of_company c rows)"
    by simp_all
  show ?case
    using IH by (simp add: r company_rows_def rows_of_company_def)
qed

lemma companies_parsed:
  "list_all valid_row rows \<Longrightarrow>
   Some ` fst ` set (parsed_rows rows) = (\<lambda>r. r ''company'') ` set rows"
proof (induction rows)
  case Nil
  show ?case by simp
next
  case (Cons r rows)
  from Cons.prems obtain name d where r: "r ''company'' = Some (PyStr name)"
    "read_row r = Inr (PyStr name, d)"
    by (auto elim: valid_row_fields)
  from Cons have "Some ` fst ` set (parsed_rows rows) = (\<lambda>r. r ''company'') ` set rows"
    by simp
  then show ?case by (simp add: r)
qed

lemma durations_present:
  "list_all valid_row rows \<Longrightarrow> r \<in> set rows \<Longrightarrow> row_duration r \<noteq> None"
  by (auto simp: list_all_iff elim: valid_row_fields)

text \<open>
  C1 (as the code has it). For every valid file the aggregation pass ends without error
  with a mapping that has exactly one entry per company value of the data rows. Every
  row has a duration that \<open>float\<close> accepts. The entry of a company holds the number of
  rows with that company value and the float sum of the durations parsed from those
  rows, added from \<open>0.0\<close> in file order; this is their exact sum when none of the
  additions rounds.
\<close>

theorem aggregate_counts_and_hours:
  assumes "valid_file records"
  shows "\<exists>company_data.
           aggregate (DictReader records) [] = Inr company_data \<and>
           distinct (map fst company_data) \<and>
           Some ` set (map fst company_data) = (\<lambda>r. r ''company'') ` set (DictReader records) \<and>
           (\<forall>r \<in> set (DictReader records). row_duration r \<noteq> None) \<and>
           (\<forall>(c, a) \<in> set company_data.
              courses a = int (length (rows_of_company c (DictReader records))) \<and>
              length (parsed_durations (rows_of_company c (DictReader records))) =
                length (rows_of_company c (DictReader records)) \<and>
              hours a = fsum (parsed_durations (rows_of_company c (DictReader records))) \<and>
              (exact_fsum (parsed_durations (rows_of_company c (DictReader records))) \<longrightarrow>
               float_val (hours a) =
                 sum_list (map float_val
                   (parsed_durations (rows_of_company c (DictReader records))))))"
proof -
  let ?rows = "DictReader records"
  let ?ps = "parsed_rows ?rows"
  let ?cd = "add_courses ?ps []"
  have valid: "list_all valid_row ?rows"
    using assms by (simp add: valid_file_def)
  have agg: "aggregate ?rows [] = Inr ?cd"
    by (rule aggregate_valid [OF valid])
  have dist: "distinct (map fst ?cd)"
    by (simp add: keys_add_courses distinct_first_appearances)
  have "set (map fst ?cd) = fst ` set ?ps"
    by (simp add: keys_add_courses set_first_appearances del: set_map) simp
  then have keys: "Some ` set (map fst ?cd) = (\<lambda>r. r ''company'') ` set ?rows"
    using companies_parsed [OF valid] by simp
  have durs: "\<forall>r \<in> set ?rows. row_duration r \<noteq> None"
    using durations_present [OF valid] by blast
  have entries: "courses a = int (length (rows_of_company c ?rows)) \<and>
      length (parsed_durations (rows_of_company c ?rows)) = length (rows_of_company c ?rows) \<and>
      hours a = fsum (parsed_durations (rows_of_company c ?rows)) \<and>
      (exact_fsum (parsed_durations (rows_of_company c ?rows)) \<longrightarrow>
       float_val (hours a) = sum_list (map float_val (parsed_durations (rows_of_company c ?rows))))"
    if "(c, a) \<in> set ?cd" for c a
  proof -
    from entry_add_courses [OF that]
    have n: "courses a = int (length (company_rows c ?ps))"
      and h: "hours a = fsum (map snd (company_rows c ?ps))"
      by simp_all
    from company_rows_parsed [OF valid, of c]
    have m: "map snd (company_rows c ?ps) = parsed_durations (rows_of_company c ?rows)"
      and l: "length (company_rows c ?ps) = length (rows_of_company c ?rows)"
      by simp_all
    have "length (parsed_durations (rows_of_company c ?rows)) = length (rows_of_company c ?rows)"
      using l by (simp add: m [symmetric])
    moreover have "float_val (hours a) =
        sum_list (map float_val (parsed_durations (rows_of_company c ?rows)))"
      if "exact_fsum (parsed_durations (rows_of_company c ?rows))"
      using float_val_exact_fsum [OF that] h m by simp
    ultimately show ?thesis using n h m l by simp
  qed
  from agg dist keys durs entries show ?thesis by blast
qed

theorem aggregate_counts_and_hours_witness:
  "valid_file [[''company'', ''duration''], [''Acme'', ''2.5''], [''Acme'', ''1.5''], [''Globex'', ''3.0'']] \<and>
   aggregate (DictReader [[''company'', ''duration''], [''Acme'', ''2.5''], [''Acme'', ''1.5''], [''Globex'', ''3.0'']]) [] =
     Inr [(PyStr ''Acme'', \<lparr>courses = 2, hours = Finite False 4503599627370496 (- 50)\<rparr>),
          (PyStr ''Globex'', \<lparr>courses = 1, hours = Finite False 6755399441055744 (- 51)\<rparr>)] \<and>
   float_val (Finite False 4503599627370496 (- 50)) =
     sum_list (map float_val (parsed_durations (rows_of_company (PyStr ''Acme'')
       (DictReader [[''company'', ''duration''], [''Acme'', ''2.5''], [''Acme'', ''1.5''], [''Globex'', ''3.0'']])))) \<and>
   sum_list (map float_val (parsed_durations (rows_of_company (PyStr ''Acme'')
       (DictReader [[''company'', ''duration''], [''Acme'', ''2.5''], [''Acme'', ''1.5''], [''Globex'', ''3.0'']])))) = 4"
proof -
  let ?records = "[[''company'', ''duration''], [''Acme'', ''2.5''], [''Acme'', ''1.5''], [''Globex'', ''3.0'']]"
  let ?acme = "\<lparr>courses = 2, hours = Finite False 4503599627370496 (- 50)\<rparr>"
  let ?cd = "[(PyStr ''Acme'', ?acme),
          (PyStr ''Globex'', \<lparr>courses = 1, hours = Finite False 6755399441055744 (- 51)\<rparr>)]"
  have v: "valid_file ?records" by code_simp
  have e: "aggregate (DictReader ?records) [] = Inr ?cd" by code_simp
  have x: "exact_fsum (parsed_durations (rows_of_company (PyStr ''Acme'') (DictReader ?records)))"
    by code_simp
  have s: "sum_list (map float_val (parsed_durations (rows_of_company (PyStr ''Acme'')
      (DictReader ?records)))) = 4"
    by code_simp
  let ?rows = "DictReader ?records"
  from aggregate_counts_and_hours [OF v]
  obtain cd where agg: "aggregate ?rows [] = Inr cd"
    and ent: "\<forall>(c, a) \<in> set cd.
      courses a = int (length (rows_of_company c ?rows)) \<and>
      length (parsed_durations (rows_of_company c ?rows)) = length (rows_of_company c ?rows) \<and>
      hours a = fsum (parsed_durations (rows_of_company c ?rows)) \<and>
      (exact_fsum (parsed_durations (rows_of_company c ?rows)) \<longrightarrow>
       float_val (hours a) = sum_list (map float_val (parsed_durations (rows_of_company c ?rows))))"
    by (elim exE conjE) (rule that)
  from agg e have cd: "cd = ?cd" by (simp only: sum.inject)
  have mem: "(PyStr ''Acme'', ?acme) \<in> set cd"
    unfolding cd by (simp only: list.set insert_iff simp_thms)
  from bspec [OF ent mem, unfolded prod.case]
  have "exact_fsum (parsed_durations (rows_of_company (PyStr ''Acme'') ?rows)) \<longrightarrow>
      float_val (hours ?acme) =
        sum_list (map float_val (parsed_durations (rows_of_company (PyStr ''Acme'') ?rows)))"
    by (elim conjE)
  with x have "float_val (hours ?acme) =
      sum_list (map float_val (parsed_durations (rows_of_company (PyStr ''Acme'') ?rows)))"
    by (rule rev_mp)
  then have "float_val (Finite False 4503599627370496 (- 50)) =
      sum_list (map float_val (parsed_durations (rows_of_company (PyStr ''Acme'') ?rows)))"
    by (simp only: agg.select_convs)
  with v e s show ?thesis by (intro conjI)
qed

text \<open>
  The claim as written, the exact sum, fails when an addition rounds. With the rows
  \<open>Acme, 0.1\<close> and \<open>Acme, 0.25\<close> the hours of Acme are the float just below 0.35, printed
  as \<open>0.3\<close>, while the sum of the two parsed durations is above 0.35.
\<close>

theorem aggregate_counts_and_hours_counterexample:
  "valid_file [[''company'', ''duration''], [''Acme'', ''0.1''], [''Acme'', ''0.25'']] \<and>
   aggregate (DictReader [[''company'', ''duration''], [''Acme'', ''0.1''], [''Acme'', ''0.25'']]) [] =
     Inr [(PyStr ''Acme'', \<lparr>courses = 2, hours = Finite False 6305039478318694 (- 54)\<rparr>)] \<and>
   float_val (Finite False 6305039478318694 (- 54)) < 7 / 20 \<and>
   7 / 20 < sum_list (map float_val (parsed_durations (rows_of_company (PyStr ''Acme'')
     (DictReader [[''company'', ''duration''], [''Acme'', ''0.1''], [''Acme'', ''0.25'']])))) \<and>
   float_val (Finite False 6305039478318694 (- 54)) \<noteq>
     sum_list (map float_val (parsed_durations (rows_of_company (PyStr ''Acme'')
       (DictReader [[''company'', ''duration''], [''Acme'', ''0.1''], [''Acme'', ''0.25'']])))) \<and>
   main ''complete_courses.csv''
     (Some [[''company'', ''duration''], [''Acme'', ''0.1''], [''Acme'', ''0.25'']]) =
     ([reading_line ''complete_courses.csv'', banner, ''COURSES AND HOURS BY COMPANY'', banner, [],
       ''Acme                :    2 courses  |       0.3 hours'',
       [], banner, ''TOTAL: 2 courses  |  0.3 hours'', banner, []], None)"
  by code_simp

end
